theory Spec2Isabelle
  imports Main "HOL-Library.Multiset" "HOL-Library.Stream"
begin

section \<open>Letters and concepts\<close>

text \<open>
  A letter is a JavaScript string; the game only ever builds one-character ASCII strings.
  \<open>toUpperCase\<close> and \<open>toLowerCase\<close> are the ASCII case mappings, applied character by
  character; every other byte is left as it is.
\<close>

definition upper_char :: "char \<Rightarrow> char" where
  "upper_char c =
     (let n = (of_char c :: nat) in if 97 \<le> n \<and> n \<le> 122 then char_of (n - 32) else c)"

definition lower_char :: "char \<Rightarrow> char" where
  "lower_char c =
     (let n = (of_char c :: nat) in if 65 \<le> n \<and> n \<le> 90 then char_of (n + 32) else c)"

definition toUpperCase :: "string \<Rightarrow> string" where
  "toUpperCase s = map upper_char s"

definition toLowerCase :: "string \<Rightarrow> string" where
  "toLowerCase s = map lower_char s"

text \<open>\<^verbatim>\<open>'ABC...'.split('')\<close>: the list of the one-character strings.\<close>

definition split_chars :: "string \<Rightarrow> string list" where
  "split_chars s = map (\<lambda>c. [c]) s"

definition ALPHABET_UPPER :: "string list" where
  "ALPHABET_UPPER = split_chars ''ABCDEFGHIJKLMNOPQRSTUVWXYZ''"

definition ALPHABET_LOWER :: "string list" where
  "ALPHABET_LOWER = split_chars ''abcdefghijklmnopqrstuvwxyz''"

section \<open>Difficulty tiers\<close>

datatype Difficulty = Easy | Medium | Hard

record settings =
  lettersPerCircle :: int
  useLowercase :: bool

fun DIFFICULTY_SETTINGS :: "Difficulty \<Rightarrow> settings" where
  "DIFFICULTY_SETTINGS Easy = \<lparr>lettersPerCircle = 4, useLowercase = False\<rparr>"
| "DIFFICULTY_SETTINGS Medium = \<lparr>lettersPerCircle = 6, useLowercase = False\<rparr>"
| "DIFFICULTY_SETTINGS Hard = \<lparr>lettersPerCircle = 8, useLowercase = True\<rparr>"

section \<open>The source of randomness\<close>

text \<open>
  \<^verbatim>\<open>Math.random()\<close> reads a global generator. The model threads that generator through
  every function that draws from it, as an infinite stream of naturals: each call of
  \<^verbatim>\<open>Math.random()\<close> consumes the head. \<^verbatim>\<open>Math.floor(Math.random() * n)\<close> is some
  index below \<open>n\<close>, read off the draw as its remainder modulo \<open>n\<close>; the test
  \<^verbatim>\<open>Math.random() > 0.5\<close> is a coin, read off the draw's parity. Every theorem below
  holds for all streams, so for every outcome of the draws.
\<close>

type_synonym rng = "nat stream"

definition random_index :: "nat \<Rightarrow> rng \<Rightarrow> nat \<times> rng" where
  "random_index n g = (shd g mod n, stl g)"

definition random_gt_half :: "rng \<Rightarrow> bool \<times> rng" where
  "random_gt_half g = (odd (shd g), stl g)"

section \<open>shuffleArray\<close>

text \<open>
  The loop \<^verbatim>\<open>for (let i = array.length - 1; i > 0; i--)\<close> with the loop variable as the
  first argument. The destructuring swap reads both cells before it writes either.
\<close>

fun shuffleFrom :: "nat \<Rightarrow> 'a list \<Rightarrow> rng \<Rightarrow> 'a list \<times> rng" where
  "shuffleFrom 0 array g = (array, g)"
| "shuffleFrom (Suc k) array g =
     (let i = Suc k;
          (j, g') = random_index (i + 1) g
      in shuffleFrom k (array[i := array ! j, j := array ! i]) g')"

text \<open>
  For the empty array \<^verbatim>\<open>array.length - 1\<close> is \<open>-1\<close> and the loop does not run; the
  truncated subtraction gives \<open>0\<close>, where it does not run either.
\<close>

definition shuffleArray :: "'a list \<Rightarrow> rng \<Rightarrow> 'a list \<times> rng" where
  "shuffleArray array g = shuffleFrom (length array - 1) array g"

section \<open>JavaScript sets\<close>

text \<open>
  A \<^verbatim>\<open>Set<string>\<close> keeps its members in insertion order and ignores the insertion of a
  member it already has: a duplicate-free list. Its \<^verbatim>\<open>size\<close> is the length of the
  list and \<^verbatim>\<open>Array.from\<close> is the list itself.
\<close>

type_synonym js_set = "string list"

definition set_has :: "js_set \<Rightarrow> string \<Rightarrow> bool" where
  "set_has s x = (x \<in> set s)"

definition set_add :: "js_set \<Rightarrow> string \<Rightarrow> js_set" where
  "set_add s x = (if set_has s x then s else s @ [x])"

section \<open>generateRound\<close>

record RoundData =
  letters1 :: "string list"
  letters2 :: "string list"
  matchingLetter :: string

text \<open>
  The loop over \<^verbatim>\<open>shuffledFullPool\<close> that fills \<^verbatim>\<open>fillerPool\<close>; the state is the
  pair of \<^verbatim>\<open>fillerPool\<close> and \<^verbatim>\<open>usedConcepts\<close>.
\<close>

fun collectFillers :: "string list \<Rightarrow> string list \<times> js_set \<Rightarrow> string list \<times> js_set" where
  "collectFillers [] (fillerPool, usedConcepts) = (fillerPool, usedConcepts)"
| "collectFillers (letter # rest) (fillerPool, usedConcepts) =
     (let concept = toUpperCase letter
      in if \<not> set_has usedConcepts concept
         then collectFillers rest (fillerPool @ [letter], set_add usedConcepts concept)
         else collectFillers rest (fillerPool, usedConcepts))"

text \<open>
  One of the two \<^verbatim>\<open>while\<close> loops that move letters from \<^verbatim>\<open>fillerPool\<close> into a
  circle's set; \<open>limit\<close> is \<^verbatim>\<open>settings.lettersPerCircle - 1\<close>, and the state is the set
  and \<^verbatim>\<open>fillerIndex\<close>.
\<close>

function takeFillers :: "int \<Rightarrow> string list \<Rightarrow> js_set \<times> nat \<Rightarrow> js_set \<times> nat" where
  "takeFillers limit fillerPool (circle, fillerIndex) =
     (if int (length circle) < limit \<and> fillerIndex < length fillerPool
      then takeFillers limit fillerPool (set_add circle (fillerPool ! fillerIndex), Suc fillerIndex)
      else (circle, fillerIndex))"
  by pat_completeness auto
termination
  by (relation "measure (\<lambda>(limit, fillerPool, circle, fillerIndex). length fillerPool - fillerIndex)")
    auto

declare takeFillers.simps [simp del]

text \<open>
  Steps 1 to 3 of \<^verbatim>\<open>generateRound\<close>: the concept, the filler pool and the fillers of the
  two circles. The result is the concept, \<^verbatim>\<open>lettersForCircle1\<close>,
  \<^verbatim>\<open>lettersForCircle2\<close> and the generator after the draws.
\<close>

definition fullLetterPool :: "settings \<Rightarrow> string list" where
  "fullLetterPool st =
     (if useLowercase st then ALPHABET_UPPER @ ALPHABET_LOWER else ALPHABET_UPPER)"

definition makeFillerPool :: "settings \<Rightarrow> string \<Rightarrow> rng \<Rightarrow> string list \<times> rng" where
  "makeFillerPool st matchingLetterConcept g =
     (let (shuffledFullPool, g') = shuffleArray (fullLetterPool st) g
      in (fst (collectFillers shuffledFullPool ([], [matchingLetterConcept])), g'))"

definition pickFillers :: "settings \<Rightarrow> string list \<Rightarrow> js_set \<times> js_set" where
  "pickFillers st fillerPool =
     (let (lettersForCircle1, fillerIndex) =
            takeFillers (lettersPerCircle st - 1) fillerPool ([], 0);
          (lettersForCircle2, fillerIndex') =
            takeFillers (lettersPerCircle st - 1) fillerPool ([], fillerIndex)
      in (lettersForCircle1, lettersForCircle2))"

definition chooseFillers :: "settings \<Rightarrow> rng \<Rightarrow> (string \<times> js_set \<times> js_set) \<times> rng" where
  "chooseFillers st g =
     (let (k, g1) = random_index (length ALPHABET_UPPER) g;
          matchingLetterConcept = ALPHABET_UPPER ! k;
          (fillerPool, g2) = makeFillerPool st matchingLetterConcept g1;
          (lettersForCircle1, lettersForCircle2) = pickFillers st fillerPool
      in ((matchingLetterConcept, lettersForCircle1, lettersForCircle2), g2))"

text \<open>The fillers that steps 1 to 3 give each circle, for given settings and generator.\<close>

definition lettersForCircle1 :: "settings \<Rightarrow> rng \<Rightarrow> js_set" where
  "lettersForCircle1 st g = fst (snd (fst (chooseFillers st g)))"

definition lettersForCircle2 :: "settings \<Rightarrow> rng \<Rightarrow> js_set" where
  "lettersForCircle2 st g = snd (snd (fst (chooseFillers st g)))"

text \<open>
  The concept that step 1 picks and the filler pool that step 2 builds, read off the same
  draws as \<open>chooseFillers\<close> makes.
\<close>

definition conceptOf :: "rng \<Rightarrow> string" where
  "conceptOf g = ALPHABET_UPPER ! (shd g mod length ALPHABET_UPPER)"

definition poolOf :: "settings \<Rightarrow> rng \<Rightarrow> string list" where
  "poolOf st g = fst (makeFillerPool st (conceptOf g) (stl g))"

definition getMatchingLetterWithCase :: "settings \<Rightarrow> string \<Rightarrow> rng \<Rightarrow> string \<times> rng" where
  "getMatchingLetterWithCase st matchingLetterConcept g =
     (if useLowercase st
      then (let (b, g') = random_gt_half g
            in (if b then toUpperCase matchingLetterConcept
                else toLowerCase matchingLetterConcept, g'))
      else (matchingLetterConcept, g))"

text \<open>
  \<^verbatim>\<open>generateRound\<close> for given settings. The array literal is evaluated before
  \<^verbatim>\<open>shuffleArray\<close> is called, so the coin of \<^verbatim>\<open>getMatchingLetterWithCase\<close> is drawn
  before the draws of the shuffle.
\<close>

definition generateRoundWith :: "settings \<Rightarrow> rng \<Rightarrow> RoundData \<times> rng" where
  "generateRoundWith st g =
     (let ((matchingLetterConcept, lettersForCircle1, lettersForCircle2), g2) = chooseFillers st g;
          (m1, g3) = getMatchingLetterWithCase st matchingLetterConcept g2;
          (l1, g4) = shuffleArray (lettersForCircle1 @ [m1]) g3;
          (m2, g5) = getMatchingLetterWithCase st matchingLetterConcept g4;
          (l2, g6) = shuffleArray (lettersForCircle2 @ [m2]) g5
      in (\<lparr>letters1 = l1, letters2 = l2, matchingLetter = matchingLetterConcept\<rparr>, g6))"

definition generateRound :: "Difficulty \<Rightarrow> rng \<Rightarrow> RoundData \<times> rng" where
  "generateRound difficulty g = generateRoundWith (DIFFICULTY_SETTINGS difficulty) g"

section \<open>The game session\<close>

text \<open>
  The component's state: the six \<^verbatim>\<open>useState\<close> cells, the callbacks that
  \<^verbatim>\<open>setTimeout\<close> has scheduled and that have not run yet (each with the time at which
  it is due, in milliseconds), the current time, and the generator behind
  \<^verbatim>\<open>Math.random()\<close>. The counters only ever hold \<open>0\<close> or a value one above an earlier
  one, so they are naturals.

  A handler is created by a render and keeps that render's values of the state
  variables; its updates go to the pending state, which the next render shows. The
  handlers of the tier buttons and of the Menu button read no state variable and write
  fixed values, so they are functions of the pending state alone.
  \<^verbatim>\<open>handleLetterClick\<close> and \<^verbatim>\<open>startNewRound\<close> read state variables of their render:
  they take what they read as an argument of its own.
\<close>

datatype Feedback = Idle | Correct

text \<open>
  The three callbacks passed to \<^verbatim>\<open>setTimeout\<close>. A callback keeps the variables of the
  render that created it: \<^verbatim>\<open>() => setRoundData(generateRound(level))\<close> keeps the
  tier, and \<^verbatim>\<open>() => startNewRound()\<close> keeps the \<^verbatim>\<open>startNewRound\<close> of its render,
  with that render's \<^verbatim>\<open>difficulty\<close>.
\<close>

datatype timer =
    SetRoundData Difficulty
  | CallStartNewRound "Difficulty option"
  | ClearWrongGuess

record app =
  difficulty :: "Difficulty option"
  roundData :: "RoundData option"
  score :: nat
  feedback :: Feedback
  wrongGuess :: bool
  wrongGuessesInRound :: nat
  clock :: nat
  timers :: "(nat \<times> timer) list"
  random :: rng

definition initial :: "rng \<Rightarrow> app" where
  "initial g = \<lparr>difficulty = None, roundData = None, score = 0, feedback = Idle,
     wrongGuess = False, wrongGuessesInRound = 0, clock = 0, timers = [], random = g\<rparr>"

definition setTimeout :: "timer \<Rightarrow> nat \<Rightarrow> app \<Rightarrow> app" where
  "setTimeout callback delay w = w\<lparr>timers := timers w @ [(clock w + delay, callback)]\<rparr>"

text \<open>The first argument is the \<^verbatim>\<open>difficulty\<close> that the callback was created with.\<close>

definition startNewRound :: "Difficulty option \<Rightarrow> app \<Rightarrow> app" where
  "startNewRound d w =
     (case d of
        None \<Rightarrow> w
      | Some level \<Rightarrow>
          setTimeout (SetRoundData level) 100
            (w\<lparr>feedback := Idle, wrongGuessesInRound := 0, roundData := None\<rparr>))"

definition handleSelectDifficulty :: "Difficulty \<Rightarrow> app \<Rightarrow> app" where
  "handleSelectDifficulty level w =
     setTimeout (SetRoundData level) 100
       (w\<lparr>difficulty := Some level, score := 0, feedback := Idle,
          wrongGuessesInRound := 0, roundData := None\<rparr>)"

definition handleBackToMenu :: "app \<Rightarrow> app" where
  "handleBackToMenu w =
     w\<lparr>difficulty := None, roundData := None, score := 0, wrongGuessesInRound := 0\<rparr>"

text \<open>
  \<^verbatim>\<open>handleLetterClick\<close> as the render of the state \<open>render\<close> created it, called when
  the pending state is \<open>w\<close>. The guard and the comparison read \<^verbatim>\<open>feedback\<close> and
  \<^verbatim>\<open>roundData\<close> of the render, and the callback of the 1200 ms timer keeps the render's
  \<^verbatim>\<open>startNewRound\<close>. \<^verbatim>\<open>setScore(prev => prev + 1)\<close> and
  \<^verbatim>\<open>setWrongGuessesInRound(prev => prev + 1)\<close> count up from the pending value.
\<close>

definition handleLetterClickOf :: "app \<Rightarrow> string \<Rightarrow> app \<Rightarrow> bool \<times> app" where
  "handleLetterClickOf render clickedLetter w =
     (if feedback render \<noteq> Idle then (False, w)
      else case roundData render of
        None \<Rightarrow> (False, w)
      | Some rd \<Rightarrow>
          if toUpperCase clickedLetter = toUpperCase (matchingLetter rd)
          then (True,
                setTimeout (CallStartNewRound (difficulty render)) 1200
                  (w\<lparr>score := score w + 1, feedback := Correct\<rparr>))
          else (False,
                setTimeout ClearWrongGuess 500
                  (w\<lparr>wrongGuess := True,
                     wrongGuessesInRound := wrongGuessesInRound w + 1\<rparr>)))"

text \<open>
  The call of \<^verbatim>\<open>handleLetterClick\<close> on a render that shows the pending state: the
  first call after React has rendered the state \<open>w\<close>.
\<close>

definition handleLetterClick :: "string \<Rightarrow> app \<Rightarrow> bool \<times> app" where
  "handleLetterClick clickedLetter w = handleLetterClickOf w clickedLetter w"

text \<open>What a callback does when its timer fires.\<close>

definition fireTimer :: "timer \<Rightarrow> app \<Rightarrow> app" where
  "fireTimer callback w =
     (case callback of
        SetRoundData level \<Rightarrow>
          (let (rd, g') = generateRound level (random w)
           in w\<lparr>roundData := Some rd, random := g'\<rparr>)
      | CallStartNewRound d \<Rightarrow> startNewRound d w
      | ClearWrongGuess \<Rightarrow> w\<lparr>wrongGuess := False\<rparr>)"

text \<open>
  The stars of the overlay shown while \<^verbatim>\<open>feedback === 'correct'\<close>:
  \<^verbatim>\<open>Math.max(1, 5 - wrongGuessesInRound)\<close>. The menu screen is returned before the
  overlay is reached, so with no difficulty nothing is shown.
\<close>

definition starsToShow :: "nat \<Rightarrow> int" where
  "starsToShow wrong = max 1 (5 - int wrong)"

definition renderedStars :: "app \<Rightarrow> int option" where
  "renderedStars w =
     (if difficulty w = None then None
      else if feedback w = Correct then Some (starsToShow (wrongGuessesInRound w))
      else None)"

section \<open>The event loop\<close>

text \<open>
  What can happen to the page: a press of a tier button of the menu, a press of the Menu
  button, a click on a letter of a circle, time passing, and the firing of a timer.
  A button can be pressed only on the screen that shows it. Time does not pass beyond the
  due time of a pending timer, and the timer that fires is the one due first, the one
  scheduled earlier when two are due together. \<open>None\<close> is a sequence of events that the
  page cannot go through.

  Each event is a task of its own and React renders the pending state before the next
  one, so a click calls the handler of a render that shows the pending state.

  \<open>ClickLetter\<close> is a click that reaches \<^verbatim>\<open>onLetterClick\<close>. A \<^verbatim>\<open>Letter\<close> that
  is shaking, for 500 ms after it was guessed wrongly, returns before that call; the
  shake is not part of this state, so a sequence of events stands for a session of the
  page only if it does not click a letter within 500 ms of a wrong guess on it.
\<close>

datatype event =
    PressTier Difficulty
  | PressMenu
  | ClickLetter string
  | Wait nat
  | Fire

fun earliest :: "(nat \<times> timer) list \<Rightarrow> (nat \<times> timer) option" where
  "earliest [] = None"
| "earliest (t # ts) =
     (case earliest ts of
        None \<Rightarrow> Some t
      | Some t' \<Rightarrow> if fst t' < fst t then Some t' else Some t)"

definition step :: "event \<Rightarrow> app \<Rightarrow> app option" where
  "step e w =
     (case e of
        PressTier level \<Rightarrow>
          if difficulty w = None then Some (handleSelectDifficulty level w) else None
      | PressMenu \<Rightarrow>
          if difficulty w = None then None else Some (handleBackToMenu w)
      | ClickLetter l \<Rightarrow>
          (case roundData w of
             None \<Rightarrow> None
           | Some rd \<Rightarrow>
               if difficulty w = None then None
               else if l \<in> set (letters1 rd) \<union> set (letters2 rd)
               then Some (snd (handleLetterClick l w))
               else None)
      | Wait n \<Rightarrow>
          (case earliest (timers w) of
             None \<Rightarrow> Some (w\<lparr>clock := clock w + n\<rparr>)
           | Some t \<Rightarrow> if clock w + n \<le> fst t then Some (w\<lparr>clock := clock w + n\<rparr>) else None)
      | Fire \<Rightarrow>
          (case earliest (timers w) of
             None \<Rightarrow> None
           | Some t \<Rightarrow>
               if fst t \<le> clock w
               then Some (fireTimer (snd t) (w\<lparr>timers := remove1 t (timers w)\<rparr>))
               else None))"

fun run :: "event list \<Rightarrow> app \<Rightarrow> app option" where
  "run [] w = Some w"
| "run (e # es) w = (case step e w of None \<Rightarrow> None | Some w' \<Rightarrow> run es w')"

text \<open>
  No pending timer holds a \<^verbatim>\<open>startNewRound\<close> whose render had no difficulty.
\<close>

definition no_null_closure :: "app \<Rightarrow> bool" where
  "no_null_closure w = (CallStartNewRound None \<notin> snd ` set (timers w))"

section \<open>Concrete sessions\<close>

text \<open>
  A session in play on the easy tier: the target is B, the first circle shows B, K, Q
  and R, nothing has been scored and no timer is pending.
\<close>

definition scenario :: app where
  "scenario =
     \<lparr>difficulty = Some Easy,
      roundData = Some \<lparr>letters1 = [''B'', ''K'', ''Q'', ''R''],
                        letters2 = [''D'', ''B'', ''M'', ''X''],
                        matchingLetter = ''B''\<rparr>,
      score = 0, feedback = Idle, wrongGuess = False, wrongGuessesInRound = 0,
      clock = 100, timers = [], random = sconst 0\<rparr>"

text \<open>
  A player picks the easy tier, sees the first round after 100 ms and finds its letter
  400 ms later; 300 ms after that click the player goes back to the menu, and 200 ms
  later picks the hard tier. The hard round appears after 100 ms. The timer that the
  click on the easy round left behind is due 1200 ms after the click, and the timer it
  schedules 100 ms after that. The click is the first on a letter that has just been
  mounted, so the shake of a wrongly guessed letter plays no part.
\<close>

definition stale_round_trace :: "event list" where
  "stale_round_trace =
     [PressTier Easy, Wait 100, Fire, Wait 400, ClickLetter ''A'', Wait 300, PressMenu,
      Wait 200, PressTier Hard, Wait 100, Fire, Wait 600, Fire, Wait 100, Fire]"

text \<open>
  The same player up to the press of the Menu button, who then stays on the menu: the
  timer that the click left behind fires 900 ms later, with no difficulty chosen.
\<close>

definition menu_timer_trace :: "event list" where
  "menu_timer_trace =
     [PressTier Easy, Wait 100, Fire, Wait 400, ClickLetter ''A'', Wait 300, PressMenu,
      Wait 900, Fire]"

section \<open>Case mapping, shuffling and the loops of the generator\<close>

lemma upper_char_idem: "upper_char (upper_char c) = upper_char c"
  by (auto simp: upper_char_def Let_def)

lemma toUpperCase_idem: "toUpperCase (toUpperCase s) = toUpperCase s"
  by (simp add: toUpperCase_def upper_char_idem)

lemma length_ALPHABET_UPPER: "length ALPHABET_UPPER = 26"
  by (simp add: ALPHABET_UPPER_def split_chars_def)

lemma distinct_ALPHABET_UPPER: "distinct ALPHABET_UPPER"
  by (simp add: ALPHABET_UPPER_def split_chars_def)

lemma upper_ALPHABET_UPPER: "map toUpperCase ALPHABET_UPPER = ALPHABET_UPPER"
  by code_simp

lemma upper_ALPHABET_LOWER: "map toUpperCase ALPHABET_LOWER = ALPHABET_UPPER"
  by code_simp

lemma upper_lower_ALPHABET_UPPER:
  "map (\<lambda>l. toUpperCase (toLowerCase l)) ALPHABET_UPPER = ALPHABET_UPPER"
  by code_simp

lemma upper_of_upper: "l \<in> set ALPHABET_UPPER \<Longrightarrow> toUpperCase l = l"
  using upper_ALPHABET_UPPER by (metis map_idI map_eq_conv list.map_id)

lemma shuffleFrom_mset:
  "k < length xs \<Longrightarrow> mset (fst (shuffleFrom k xs g)) = mset xs"
proof (induction k arbitrary: xs g)
  case 0
  then show ?case by simp
next
  case (Suc k)
  define j where "j = shd g mod (Suc k + 1)"
  define ys where "ys = xs[Suc k := xs ! j, j := xs ! Suc k]"
  have "j < Suc k + 1" unfolding j_def by (rule mod_less_divisor) simp
  with Suc.prems have j: "j < length xs" by linarith
  have "mset ys = mset xs" unfolding ys_def using Suc.prems j by (simp add: mset_swap)
  moreover have "k < length ys" unfolding ys_def using Suc.prems by simp
  ultimately have "mset (fst (shuffleFrom k ys (stl g))) = mset xs"
    using Suc.IH[of ys "stl g"] by simp
  then show ?case
    by (simp add: random_index_def j_def ys_def)
qed

lemma shuffleArray_mset: "mset (fst (shuffleArray xs g)) = mset xs"
proof (cases xs)
  case Nil
  then show ?thesis by (simp add: shuffleArray_def)
next
  case (Cons a list)
  then show ?thesis by (simp add: shuffleArray_def shuffleFrom_mset)
qed

lemma collectFillers_inv:
  assumes "collectFillers letters (pool, used) = (pool', used')"
    and "distinct (map toUpperCase pool)"
    and "toUpperCase ` set pool \<subseteq> set used"
  shows "distinct (map toUpperCase pool') \<and>
         toUpperCase ` set pool' = toUpperCase ` set pool \<union> (toUpperCase ` set letters - set used)"
  using assms
proof (induction letters arbitrary: pool used)
  case Nil
  then show ?case by auto
next
  case (Cons letter rest)
  show ?case
  proof (cases "toUpperCase letter \<in> set used")
    case True
    with Cons.prems have "collectFillers rest (pool, used) = (pool', used')"
      by (simp add: set_has_def)
    from Cons.IH[OF this Cons.prems(2) Cons.prems(3)] True show ?thesis by auto
  next
    case False
    with Cons.prems have c: "collectFillers rest (pool @ [letter], used @ [toUpperCase letter]) = (pool', used')"
      by (simp add: set_has_def set_add_def)
    have d: "distinct (map toUpperCase (pool @ [letter]))"
      using Cons.prems(2,3) False by auto
    have s: "toUpperCase ` set (pool @ [letter]) \<subseteq> set (used @ [toUpperCase letter])"
      using Cons.prems(3) by auto
    from Cons.IH[OF c d s] False show ?thesis by auto
  qed
qed

lemma takeFillers_closed:
  "distinct pool \<Longrightarrow> set circle \<inter> set (drop idx pool) = {} \<Longrightarrow>
   takeFillers limit pool (circle, idx) =
     (circle @ take (nat (limit - int (length circle))) (drop idx pool),
      idx + min (nat (limit - int (length circle))) (length pool - idx))"
proof (induction limit pool "(circle, idx)" arbitrary: circle idx rule: takeFillers.induct)
  case (1 limit pool circle idx)
  show ?case
  proof (cases "int (length circle) < limit \<and> idx < length pool")
    case False
    then have "takeFillers limit pool (circle, idx) = (circle, idx)"
      by (subst takeFillers.simps) auto
    with False show ?thesis by (auto simp: min_def)
  next
    case True
    then have lt: "idx < length pool" by simp
    have dr: "drop idx pool = pool ! idx # drop (Suc idx) pool"
      using lt by (simp add: Cons_nth_drop_Suc)
    have notin: "pool ! idx \<notin> set circle" using "1.prems"(2) dr by auto
    then have sa: "set_add circle (pool ! idx) = circle @ [pool ! idx]"
      by (simp add: set_add_def set_has_def)
    have "distinct (drop idx pool)" using "1.prems"(1) by simp
    then have nd: "pool ! idx \<notin> set (drop (Suc idx) pool)" using dr by simp
    have disj: "set (circle @ [pool ! idx]) \<inter> set (drop (Suc idx) pool) = {}"
      using "1.prems"(2) dr nd by auto
    have ih: "takeFillers limit pool (circle @ [pool ! idx], Suc idx) =
      ((circle @ [pool ! idx]) @ take (nat (limit - int (length (circle @ [pool ! idx])))) (drop (Suc idx) pool),
      Suc idx + min (nat (limit - int (length (circle @ [pool ! idx])))) (length pool - Suc idx))"
      using "1.hyps"[OF True "1.prems"(1)] disj unfolding sa by simp
    obtain m where m: "nat (limit - int (length circle)) = Suc m"
      using True by (cases "nat (limit - int (length circle))") auto
    then have m': "nat (limit - int (length (circle @ [pool ! idx]))) = m" by simp
    have "takeFillers limit pool (circle, idx) = takeFillers limit pool (circle @ [pool ! idx], Suc idx)"
      using True sa by (subst takeFillers.simps) simp
    also have "\<dots> = (circle @ take (Suc m) (drop idx pool), idx + min (Suc m) (length pool - idx))"
    proof -
      have "Suc idx + min m (length pool - Suc idx) = idx + min (Suc m) (length pool - idx)"
        using lt by (simp add: min_def) linarith
      then show ?thesis unfolding ih m' using dr by simp
    qed
    finally show ?thesis unfolding m .
  qed
qed

section \<open>The shape of a generated round\<close>

lemma upper_fullLetterPool: "toUpperCase ` set (fullLetterPool st) = set ALPHABET_UPPER"
proof -
  have "toUpperCase ` set ALPHABET_UPPER = set ALPHABET_UPPER"
    using upper_ALPHABET_UPPER by (metis set_map)
  moreover have "toUpperCase ` set ALPHABET_LOWER = set ALPHABET_UPPER"
    using upper_ALPHABET_LOWER by (metis set_map)
  ultimately show ?thesis by (auto simp: fullLetterPool_def image_Un)
qed

lemma makeFillerPool_props:
  fixes st c g
  defines "pool \<equiv> fst (makeFillerPool st c g)"
  assumes c: "c \<in> set ALPHABET_UPPER"
  shows "distinct (map toUpperCase pool)"
    and "toUpperCase ` set pool = set ALPHABET_UPPER - {c}"
    and "length pool = 25"
proof -
  define sh where "sh = fst (shuffleArray (fullLetterPool st) g)"
  have set_sh: "set sh = set (fullLetterPool st)"
    unfolding sh_def using shuffleArray_mset by (metis mset_eq_setD)
  obtain p u where pu: "collectFillers sh ([], [c]) = (p, u)" by (cases "collectFillers sh ([], [c])")
  have pool: "pool = p"
    unfolding pool_def makeFillerPool_def using pu
    by (simp add: sh_def split_beta)
  from collectFillers_inv[OF pu] have d: "distinct (map toUpperCase p)"
    and i: "toUpperCase ` set p = toUpperCase ` set sh - set [c]" by auto
  show 1: "distinct (map toUpperCase pool)" using d pool by simp
  show 2: "toUpperCase ` set pool = set ALPHABET_UPPER - {c}"
    using i pool set_sh upper_fullLetterPool by simp
  have "length pool = length (map toUpperCase pool)" by simp
  also have "\<dots> = card (set (map toUpperCase pool))" using distinct_card[OF 1] by simp
  also have "\<dots> = card (set ALPHABET_UPPER - {c})" using 2 by simp
  also have "\<dots> = 25"
    using c distinct_ALPHABET_UPPER length_ALPHABET_UPPER by (simp add: distinct_card)
  finally show "length pool = 25" .
qed

lemma pickFillers_closed:
  assumes "distinct pool"
  shows "pickFillers st pool =
    (take (nat (lettersPerCircle st - 1)) pool,
     take (nat (lettersPerCircle st - 1)) (drop (nat (lettersPerCircle st - 1)) pool))"
proof -
  define n where "n = nat (lettersPerCircle st - 1)"
  have 1: "takeFillers (lettersPerCircle st - 1) pool ([], 0) = (take n pool, min n (length pool))"
    using takeFillers_closed[OF assms, of "[]" 0 "lettersPerCircle st - 1"] by (simp add: n_def)
  have 2: "takeFillers (lettersPerCircle st - 1) pool ([], min n (length pool)) =
     (take n (drop (min n (length pool)) pool), min n (length pool) + min n (length pool - min n (length pool)))"
    using takeFillers_closed[OF assms, of "[]" "min n (length pool)" "lettersPerCircle st - 1"]
    by (simp add: n_def)
  have 3: "drop (min n (length pool)) pool = drop n pool"
    by (cases "n \<le> length pool") (simp_all add: min_def)
  show ?thesis
    unfolding pickFillers_def 1 n_def[symmetric] by (simp add: 2 3)
qed


lemma upper_lower_of_upper: "l \<in> set ALPHABET_UPPER \<Longrightarrow> toUpperCase (toLowerCase l) = l"
proof -
  assume "l \<in> set ALPHABET_UPPER"
  then obtain i where i: "i < length ALPHABET_UPPER" "ALPHABET_UPPER ! i = l"
    by (auto simp: in_set_conv_nth)
  have "map (\<lambda>l. toUpperCase (toLowerCase l)) ALPHABET_UPPER ! i = ALPHABET_UPPER ! i"
    by (simp only: upper_lower_ALPHABET_UPPER)
  with i show ?thesis by simp
qed

lemma concept_in_ALPHABET_UPPER:
  "ALPHABET_UPPER ! (shd g mod length ALPHABET_UPPER) \<in> set ALPHABET_UPPER"
  by (rule nth_mem) (simp add: length_ALPHABET_UPPER)

lemma getMatchingLetterWithCase_upper:
  "c \<in> set ALPHABET_UPPER \<Longrightarrow> toUpperCase (fst (getMatchingLetterWithCase st c g)) = c"
  by (simp add: getMatchingLetterWithCase_def random_gt_half_def upper_of_upper
      upper_lower_of_upper)

lemma distinct_poolOf: "distinct (poolOf st g)"
  using makeFillerPool_props(1)[OF concept_in_ALPHABET_UPPER, of st g "stl g"]
  by (simp add: poolOf_def conceptOf_def distinct_map)

lemma chooseFillers_closed:
  "fst (chooseFillers st g) =
     (conceptOf g, take (nat (lettersPerCircle st - 1)) (poolOf st g),
      take (nat (lettersPerCircle st - 1)) (drop (nat (lettersPerCircle st - 1)) (poolOf st g)))"
  using pickFillers_closed[OF distinct_poolOf, of st st g]
  by (simp add: chooseFillers_def random_index_def split_beta Let_def conceptOf_def poolOf_def)

lemma lettersForCircle1_closed:
  "lettersForCircle1 st g = take (nat (lettersPerCircle st - 1)) (poolOf st g)"
  by (simp add: lettersForCircle1_def chooseFillers_closed)

lemma lettersForCircle2_closed:
  "lettersForCircle2 st g =
     take (nat (lettersPerCircle st - 1)) (drop (nat (lettersPerCircle st - 1)) (poolOf st g))"
  by (simp add: lettersForCircle2_def chooseFillers_closed)

lemma matchingLetter_generateRoundWith:
  "matchingLetter (fst (generateRoundWith st g)) = conceptOf g"
  by (simp add: generateRoundWith_def split_beta Let_def chooseFillers_closed)

lemma letters1_generateRoundWith:
  "mset (letters1 (fst (generateRoundWith st g))) =
     mset (lettersForCircle1 st g) +
     {#fst (getMatchingLetterWithCase st (conceptOf g) (snd (chooseFillers st g)))#}"
  by (simp add: generateRoundWith_def split_beta Let_def shuffleArray_mset lettersForCircle1_def
      chooseFillers_closed)

lemma letters1_target:
  "\<exists>m. toUpperCase m = conceptOf g \<and>
       mset (letters1 (fst (generateRoundWith st g))) = mset (lettersForCircle1 st g) + {#m#}"
proof -
  have "toUpperCase (fst (getMatchingLetterWithCase st (conceptOf g) (snd (chooseFillers st g))))
      = conceptOf g"
    unfolding conceptOf_def
    by (rule getMatchingLetterWithCase_upper) (rule concept_in_ALPHABET_UPPER)
  then show ?thesis using letters1_generateRoundWith by blast
qed

lemma letters2_target:
  "\<exists>m. toUpperCase m = conceptOf g \<and>
       mset (letters2 (fst (generateRoundWith st g))) = mset (lettersForCircle2 st g) + {#m#}"
proof -
  define g2 where "g2 = snd (chooseFillers st g)"
  define m1 where "m1 = getMatchingLetterWithCase st (conceptOf g) g2"
  define g4 where "g4 = snd (shuffleArray (lettersForCircle1 st g @ [fst m1]) (snd m1))"
  define m where "m = fst (getMatchingLetterWithCase st (conceptOf g) g4)"
  have "toUpperCase m = conceptOf g"
    unfolding m_def conceptOf_def
    by (rule getMatchingLetterWithCase_upper) (rule concept_in_ALPHABET_UPPER)
  moreover have "mset (letters2 (fst (generateRoundWith st g))) = mset (lettersForCircle2 st g) + {#m#}"
    by (simp add: generateRoundWith_def split_beta Let_def shuffleArray_mset lettersForCircle1_def
        lettersForCircle2_def m_def m1_def g4_def g2_def chooseFillers_closed)
  ultimately show ?thesis by blast
qed

lemma target_in_letters1:
  "\<not> useLowercase st \<Longrightarrow> conceptOf g \<in> set (letters1 (fst (generateRoundWith st g)))"
proof -
  assume "\<not> useLowercase st"
  then have "mset (letters1 (fst (generateRoundWith st g))) =
     mset (lettersForCircle1 st g) + {#conceptOf g#}"
    using letters1_generateRoundWith[of st g] by (simp add: getMatchingLetterWithCase_def)
  then have "conceptOf g \<in># mset (letters1 (fst (generateRoundWith st g)))" by simp
  then show ?thesis by simp
qed

lemma poolOf_props:
  "distinct (map toUpperCase (poolOf st g))"
  "toUpperCase ` set (poolOf st g) = set ALPHABET_UPPER - {conceptOf g}"
  "length (poolOf st g) = 25"
  using makeFillerPool_props[OF concept_in_ALPHABET_UPPER, of st g "stl g"]
  by (simp_all add: poolOf_def conceptOf_def)

lemma fillers1_not_target: "l \<in> set (lettersForCircle1 st g) \<Longrightarrow> toUpperCase l \<noteq> conceptOf g"
proof -
  assume "l \<in> set (lettersForCircle1 st g)"
  then have "l \<in> set (poolOf st g)"
    unfolding lettersForCircle1_closed by (rule in_set_takeD)
  then have "toUpperCase l \<in> set ALPHABET_UPPER - {conceptOf g}"
    using poolOf_props(2)[of st g] by blast
  then show ?thesis by simp
qed

lemma fillers2_not_target: "l \<in> set (lettersForCircle2 st g) \<Longrightarrow> toUpperCase l \<noteq> conceptOf g"
proof -
  assume "l \<in> set (lettersForCircle2 st g)"
  then have "l \<in> set (poolOf st g)"
    unfolding lettersForCircle2_closed by (meson in_set_takeD in_set_dropD)
  then have "toUpperCase l \<in> set ALPHABET_UPPER - {conceptOf g}"
    using poolOf_props(2)[of st g] by blast
  then show ?thesis by simp
qed

lemma length_lettersForCircle1:
  "length (lettersForCircle1 st g) = min (nat (lettersPerCircle st - 1)) 25"
  by (simp add: lettersForCircle1_closed poolOf_props(3) min.commute)

lemma length_lettersForCircle2:
  "length (lettersForCircle2 st g) =
     min (nat (lettersPerCircle st - 1)) (25 - nat (lettersPerCircle st - 1))"
  by (simp add: lettersForCircle2_closed poolOf_props(3) min.commute)

lemma length_letters1:
  "length (letters1 (fst (generateRoundWith st g))) = Suc (length (lettersForCircle1 st g))"
proof -
  obtain m where "mset (letters1 (fst (generateRoundWith st g))) = mset (lettersForCircle1 st g) + {#m#}"
    using letters1_target by blast
  then have "size (mset (letters1 (fst (generateRoundWith st g)))) = size (mset (lettersForCircle1 st g) + {#m#})"
    by simp
  then show ?thesis by simp
qed

lemma length_letters2:
  "length (letters2 (fst (generateRoundWith st g))) = Suc (length (lettersForCircle2 st g))"
proof -
  obtain m where "mset (letters2 (fst (generateRoundWith st g))) = mset (lettersForCircle2 st g) + {#m#}"
    using letters2_target by blast
  then have "size (mset (letters2 (fst (generateRoundWith st g)))) = size (mset (lettersForCircle2 st g) + {#m#})"
    by simp
  then show ?thesis by simp
qed

lemma one_target_aux:
  assumes "mset xs = mset fs + {#m#}" and "toUpperCase m = c"
    and "\<And>l. l \<in> set fs \<Longrightarrow> toUpperCase l \<noteq> c"
  shows "length (filter (\<lambda>l. toUpperCase l = c) xs) = 1"
    and "mset (filter (\<lambda>l. toUpperCase l \<noteq> c) xs) = mset fs"
proof -
  have none: "filter_mset (\<lambda>l. toUpperCase l = c) (mset fs) = {#}"
    using assms(3) by (auto simp: filter_mset_eq_conv)
  have "mset (filter (\<lambda>l. toUpperCase l = c) xs) = filter_mset (\<lambda>l. toUpperCase l = c) (mset xs)"
    by (rule mset_filter)
  also have "\<dots> = filter_mset (\<lambda>l. toUpperCase l = c) (mset fs + {#m#})"
    by (simp only: assms(1))
  also have "\<dots> = {#m#}" using none assms(2) by simp
  finally have e: "mset (filter (\<lambda>l. toUpperCase l = c) xs) = {#m#}" .
  have "length (filter (\<lambda>l. toUpperCase l = c) xs) = size (mset (filter (\<lambda>l. toUpperCase l = c) xs))"
    by (simp only: size_mset)
  also have "\<dots> = size {#m#}" by (simp only: e)
  finally show "length (filter (\<lambda>l. toUpperCase l = c) xs) = 1" by simp
  have all: "filter_mset (\<lambda>l. toUpperCase l \<noteq> c) (mset fs) = mset fs"
    using assms(3) by (auto simp: filter_mset_eq_conv)
  have "mset (filter (\<lambda>l. toUpperCase l \<noteq> c) xs) = filter_mset (\<lambda>l. toUpperCase l \<noteq> c) (mset xs)"
    by (rule mset_filter)
  also have "\<dots> = filter_mset (\<lambda>l. toUpperCase l \<noteq> c) (mset fs + {#m#})"
    by (simp only: assms(1))
  also have "\<dots> = mset fs" using all assms(2) by simp
  finally show "mset (filter (\<lambda>l. toUpperCase l \<noteq> c) xs) = mset fs" .
qed

lemma one_target1:
  "length (filter (\<lambda>l. toUpperCase l = conceptOf g) (letters1 (fst (generateRoundWith st g)))) = 1"
  using letters1_target[of g st] one_target_aux(1) fillers1_not_target by blast

lemma one_target2:
  "length (filter (\<lambda>l. toUpperCase l = conceptOf g) (letters2 (fst (generateRoundWith st g)))) = 1"
  using letters2_target[of g st] one_target_aux(1) fillers2_not_target by blast

lemma nontarget1:
  "mset (filter (\<lambda>l. toUpperCase l \<noteq> conceptOf g) (letters1 (fst (generateRoundWith st g))))
     = mset (lettersForCircle1 st g)"
  using letters1_target[of g st] one_target_aux(2) fillers1_not_target by blast

lemma nontarget2:
  "mset (filter (\<lambda>l. toUpperCase l \<noteq> conceptOf g) (letters2 (fst (generateRoundWith st g))))
     = mset (lettersForCircle2 st g)"
  using letters2_target[of g st] one_target_aux(2) fillers2_not_target by blast

lemma fillers_disjoint:
  "toUpperCase ` set (lettersForCircle1 st g) \<inter> toUpperCase ` set (lettersForCircle2 st g) = {}"
proof -
  define n where "n = nat (lettersPerCircle st - 1)"
  define p where "p = map toUpperCase (poolOf st g)"
  have "distinct (take n p @ drop n p)" using poolOf_props(1)[of st g] by (simp add: p_def)
  then have "set (take n p) \<inter> set (drop n p) = {}" by (simp only: distinct_append) 
  moreover have "set (take n (drop n p)) \<subseteq> set (drop n p)" by (rule set_take_subset)
  ultimately have "set (take n p) \<inter> set (take n (drop n p)) = {}" by blast
  then show ?thesis
    unfolding lettersForCircle1_closed lettersForCircle2_closed n_def[symmetric] p_def
    by (simp add: take_map drop_map)
qed

lemma distinct_concepts_aux:
  assumes "mset xs = mset fs + {#m#}" and "toUpperCase m = c"
    and "\<And>l. l \<in> set fs \<Longrightarrow> toUpperCase l \<noteq> c"
    and "distinct (map toUpperCase fs)"
  shows "distinct (map toUpperCase xs)"
proof -
  have "mset (map toUpperCase xs) = image_mset toUpperCase (mset xs)"
    by (rule mset_map)
  also have "\<dots> = image_mset toUpperCase (mset fs + {#m#})"
    by (simp only: assms(1))
  also have "\<dots> = mset (map toUpperCase (fs @ [m]))" by simp
  finally have "mset (map toUpperCase xs) = mset (map toUpperCase (fs @ [m]))" .
  moreover have "toUpperCase m \<notin> toUpperCase ` set fs"
  proof
    assume "toUpperCase m \<in> toUpperCase ` set fs"
    then obtain l where "l \<in> set fs" "toUpperCase l = toUpperCase m" by auto
    with assms(2,3) show False by simp
  qed
  then have "distinct (map toUpperCase (fs @ [m]))"
    using assms(4) by simp
  ultimately show ?thesis by (metis mset_eq_imp_distinct_iff)
qed

lemma distinct_concepts1:
  "distinct (map toUpperCase (letters1 (fst (generateRoundWith st g))))"
proof -
  have "distinct (map toUpperCase (lettersForCircle1 st g))"
    unfolding lettersForCircle1_closed using poolOf_props(1)[of st g]
    by (simp add: take_map[symmetric] del: take_map)
  then show ?thesis
    using letters1_target[of g st] distinct_concepts_aux fillers1_not_target by blast
qed

lemma distinct_concepts2:
  "distinct (map toUpperCase (letters2 (fst (generateRoundWith st g))))"
proof -
  have "distinct (map toUpperCase (lettersForCircle2 st g))"
    unfolding lettersForCircle2_closed using poolOf_props(1)[of st g]
    by (simp add: take_map[symmetric] drop_map[symmetric] del: take_map drop_map)
  then show ?thesis
    using letters2_target[of g st] distinct_concepts_aux fillers2_not_target by blast
qed

lemma matchingLetter_generateRound:
  "matchingLetter (fst (generateRound d g)) = conceptOf g"
  by (simp add: generateRound_def matchingLetter_generateRoundWith)

lemma length_letters1_generateRound:
  "length (letters1 (fst (generateRound d g))) = nat (lettersPerCircle (DIFFICULTY_SETTINGS d))"
  unfolding generateRound_def length_letters1 length_lettersForCircle1
  by (cases d) simp_all

lemma length_letters2_generateRound:
  "length (letters2 (fst (generateRound d g))) = nat (lettersPerCircle (DIFFICULTY_SETTINGS d))"
  unfolding generateRound_def length_letters2 length_lettersForCircle2
  by (cases d) simp_all

lemma target_not_among_fillers:
  "conceptOf g \<notin> toUpperCase ` (set (lettersForCircle1 st g) \<union> set (lettersForCircle2 st g))"
proof -
  have "toUpperCase ` set (lettersForCircle1 st g) \<subseteq> toUpperCase ` set (poolOf st g)"
    unfolding lettersForCircle1_closed by (rule image_mono) (rule set_take_subset)
  moreover have "set (lettersForCircle2 st g) \<subseteq> set (poolOf st g)"
    unfolding lettersForCircle2_closed
    by (rule subset_trans[OF set_take_subset set_drop_subset])
  then have "toUpperCase ` set (lettersForCircle2 st g) \<subseteq> toUpperCase ` set (poolOf st g)"
    by (rule image_mono)
  moreover have "conceptOf g \<notin> toUpperCase ` set (poolOf st g)"
    unfolding poolOf_props(2) by simp
  ultimately show ?thesis unfolding image_Un by blast
qed

lemma conceptOf_sconst_0: "conceptOf (sconst 0) = ''A''"
  by (simp add: conceptOf_def ALPHABET_UPPER_def split_chars_def)

lemma A_in_easy_round: "''A'' \<in> set (letters1 (fst (generateRound Easy (sconst 0))))"
  using target_in_letters1[of "DIFFICULTY_SETTINGS Easy" "sconst 0"]
  by (simp add: generateRound_def conceptOf_sconst_0)

lemma upper_scenario_letters:
  "toUpperCase ''b'' = ''B''" "toUpperCase ''B'' = ''B''" "toUpperCase ''K'' = ''K''"
  by code_simp+

section \<open>The closures of pending timers\<close>

lemma step_no_null_closure:
  "step e w = Some w' \<Longrightarrow> no_null_closure w \<Longrightarrow> no_null_closure w'"
proof (cases e)
  case (PressTier d)
  assume "step e w = Some w'" "no_null_closure w"
  with PressTier show ?thesis
    by (auto simp: step_def no_null_closure_def handleSelectDifficulty_def setTimeout_def split: if_splits)
next
  case PressMenu
  assume "step e w = Some w'" "no_null_closure w"
  with PressMenu show ?thesis
    by (auto simp: step_def no_null_closure_def handleBackToMenu_def split: if_splits)
next
  case (ClickLetter l)
  assume "step e w = Some w'" "no_null_closure w"
  with ClickLetter show ?thesis
    by (auto simp: step_def no_null_closure_def handleLetterClick_def handleLetterClickOf_def
        setTimeout_def split: if_splits option.splits)
next
  case (Wait n)
  assume "step e w = Some w'" "no_null_closure w"
  with Wait show ?thesis
    by (auto simp: step_def no_null_closure_def split: if_splits option.splits)
next
  case Fire
  assume a: "step e w = Some w'" "no_null_closure w"
  from a(1) Fire obtain t where t: "earliest (timers w) = Some t" "fst t \<le> clock w"
    and w': "w' = fireTimer (snd t) (w\<lparr>timers := remove1 t (timers w)\<rparr>)"
    by (auto simp: step_def split: if_splits option.splits)
  have r: "CallStartNewRound None \<notin> snd ` set (remove1 t (timers w))"
    using a(2) set_remove1_subset[of t "timers w"] by (auto simp: no_null_closure_def)
  show ?thesis
  proof (cases "snd t")
    case (SetRoundData d)
    with r w' show ?thesis by (simp add: no_null_closure_def fireTimer_def split_beta)
  next
    case (CallStartNewRound d)
    with r w' show ?thesis
      by (cases d) (simp_all add: no_null_closure_def fireTimer_def startNewRound_def setTimeout_def)
  next
    case ClearWrongGuess
    with r w' show ?thesis by (simp add: no_null_closure_def fireTimer_def)
  qed
qed

lemma run_no_null_closure:
  "run es w = Some w' \<Longrightarrow> no_null_closure w \<Longrightarrow> no_null_closure w'"
proof (induction es arbitrary: w)
  case Nil
  then show ?case by simp
next
  case (Cons e es)
  from Cons.prems(1) obtain w1 where s: "step e w = Some w1" and r: "run es w1 = Some w'"
    by (auto split: option.splits)
  from step_no_null_closure[OF s Cons.prems(2)] have "no_null_closure w1" .
  from Cons.IH[OF r this] show ?case .
qed

section \<open>The claims\<close>

text \<open>
  C1. In a session with \<open>feedback = Idle\<close> and a round whose target concept is an
  upper-case concept (its own upper-case form, as every generated round's is),
  \<open>handleLetterClick\<close> with a letter whose upper-case form is the target returns true,
  adds exactly one to the score and sets the feedback to \<open>Correct\<close>; with any other
  letter it returns false, adds exactly one to the wrong guesses of the round, and leaves
  the score, the round, the difficulty and the feedback as they were.
\<close>

theorem handleLetterClick_resolves:
  assumes "feedback w = Idle" and "roundData w = Some rd"
    and "toUpperCase (matchingLetter rd) = matchingLetter rd"
  shows "(toUpperCase l = matchingLetter rd \<longrightarrow>
            fst (handleLetterClick l w) = True \<and>
            score (snd (handleLetterClick l w)) = score w + 1 \<and>
            feedback (snd (handleLetterClick l w)) = Correct) \<and>
         (toUpperCase l \<noteq> matchingLetter rd \<longrightarrow>
            fst (handleLetterClick l w) = False \<and>
            wrongGuessesInRound (snd (handleLetterClick l w)) = wrongGuessesInRound w + 1 \<and>
            score (snd (handleLetterClick l w)) = score w \<and>
            roundData (snd (handleLetterClick l w)) = roundData w \<and>
            difficulty (snd (handleLetterClick l w)) = difficulty w \<and>
            feedback (snd (handleLetterClick l w)) = feedback w)"
  using assms by (simp add: handleLetterClick_def handleLetterClickOf_def setTimeout_def)

theorem handleLetterClick_resolves_witness:
  "fst (handleLetterClick ''b'' scenario) = True \<and>
   score (snd (handleLetterClick ''b'' scenario)) = 1 \<and>
   feedback (snd (handleLetterClick ''b'' scenario)) = Correct \<and>
   fst (handleLetterClick ''K'' scenario) = False \<and>
   wrongGuessesInRound (snd (handleLetterClick ''K'' scenario)) = 1 \<and>
   score (snd (handleLetterClick ''K'' scenario)) = 0 \<and>
   feedback (snd (handleLetterClick ''K'' scenario)) = Idle"
  using handleLetterClick_resolves[of scenario "the (roundData scenario)" "''b''"]
    handleLetterClick_resolves[of scenario "the (roundData scenario)" "''K''"]
  by (simp add: scenario_def upper_scenario_letters)

text \<open>
  C2. On each of the three tiers (4, 6 and 8 letters per circle) both circles of a
  generated round have exactly \<open>lettersPerCircle\<close> letters, and each circle has exactly
  one letter whose upper-case form is the target concept.
\<close>

theorem generateRound_circle_shape:
  "lettersPerCircle (DIFFICULTY_SETTINGS d) = (case d of Easy \<Rightarrow> 4 | Medium \<Rightarrow> 6 | Hard \<Rightarrow> 8) \<and>
   int (length (letters1 (fst (generateRound d g)))) = lettersPerCircle (DIFFICULTY_SETTINGS d) \<and>
   int (length (letters2 (fst (generateRound d g)))) = lettersPerCircle (DIFFICULTY_SETTINGS d) \<and>
   length (filter (\<lambda>l. toUpperCase l = matchingLetter (fst (generateRound d g)))
             (letters1 (fst (generateRound d g)))) = 1 \<and>
   length (filter (\<lambda>l. toUpperCase l = matchingLetter (fst (generateRound d g)))
             (letters2 (fst (generateRound d g)))) = 1"
proof -
  have t: "lettersPerCircle (DIFFICULTY_SETTINGS d) = (case d of Easy \<Rightarrow> 4 | Medium \<Rightarrow> 6 | Hard \<Rightarrow> 8)"
    by (cases d) simp_all
  have l1: "int (length (letters1 (fst (generateRound d g)))) = lettersPerCircle (DIFFICULTY_SETTINGS d)"
    unfolding length_letters1_generateRound by (cases d) simp_all
  have l2: "int (length (letters2 (fst (generateRound d g)))) = lettersPerCircle (DIFFICULTY_SETTINGS d)"
    unfolding length_letters2_generateRound by (cases d) simp_all
  have o1: "length (filter (\<lambda>l. toUpperCase l = matchingLetter (fst (generateRound d g)))
             (letters1 (fst (generateRound d g)))) = 1"
    unfolding matchingLetter_generateRound unfolding generateRound_def by (rule one_target1)
  have o2: "length (filter (\<lambda>l. toUpperCase l = matchingLetter (fst (generateRound d g)))
             (letters2 (fst (generateRound d g)))) = 1"
    unfolding matchingLetter_generateRound unfolding generateRound_def by (rule one_target2)
  from t l1 l2 o1 o2 show ?thesis by blast
qed

text \<open>
  C3. In a generated round the letters of the first circle other than the target and
  those of the second share no concept: they are the fillers that the two loops took, the
  first \<open>lettersPerCircle - 1\<close> entries of one filler pool and the entries after them, and
  that pool holds no concept twice.
\<close>

theorem generateRound_fillers_disjoint:
  "toUpperCase ` set (filter (\<lambda>l. toUpperCase l \<noteq> matchingLetter (fst (generateRound d g)))
                        (letters1 (fst (generateRound d g)))) \<inter>
   toUpperCase ` set (filter (\<lambda>l. toUpperCase l \<noteq> matchingLetter (fst (generateRound d g)))
                        (letters2 (fst (generateRound d g)))) = {} \<and>
   toUpperCase ` set (lettersForCircle1 (DIFFICULTY_SETTINGS d) g) \<inter>
   toUpperCase ` set (lettersForCircle2 (DIFFICULTY_SETTINGS d) g) = {} \<and>
   distinct (map toUpperCase (poolOf (DIFFICULTY_SETTINGS d) g)) \<and>
   lettersForCircle1 (DIFFICULTY_SETTINGS d) g =
     take (nat (lettersPerCircle (DIFFICULTY_SETTINGS d) - 1)) (poolOf (DIFFICULTY_SETTINGS d) g) \<and>
   lettersForCircle2 (DIFFICULTY_SETTINGS d) g =
     take (nat (lettersPerCircle (DIFFICULTY_SETTINGS d) - 1))
       (drop (nat (lettersPerCircle (DIFFICULTY_SETTINGS d) - 1)) (poolOf (DIFFICULTY_SETTINGS d) g))"
proof -
  let ?st = "DIFFICULTY_SETTINGS d"
  have s1: "set (filter (\<lambda>l. toUpperCase l \<noteq> matchingLetter (fst (generateRound d g)))
                        (letters1 (fst (generateRound d g)))) = set (lettersForCircle1 ?st g)"
    unfolding matchingLetter_generateRound unfolding generateRound_def
    using nontarget1[of g ?st] by (rule mset_eq_setD)
  have s2: "set (filter (\<lambda>l. toUpperCase l \<noteq> matchingLetter (fst (generateRound d g)))
                        (letters2 (fst (generateRound d g)))) = set (lettersForCircle2 ?st g)"
    unfolding matchingLetter_generateRound unfolding generateRound_def
    using nontarget2[of g ?st] by (rule mset_eq_setD)
  show ?thesis
    unfolding s1 s2
    using fillers_disjoint[of ?st g] poolOf_props(1)[of ?st g]
      lettersForCircle1_closed[of ?st g] lettersForCircle2_closed[of ?st g] by blast
qed

text \<open>
  C4, as the claim states it, fails: with 14 letters per circle and upper-case letters
  only, the pool has 25 fillers, the first circle takes 13 of them and the second is left
  with 12, one short of \<open>lettersPerCircle - 1\<close>, so its circle has 13 letters.
\<close>

theorem partition_exhausts_at_14:
  "length (lettersForCircle1 \<lparr>lettersPerCircle = 14, useLowercase = False\<rparr> (sconst 0)) = 13 \<and>
   length (lettersForCircle2 \<lparr>lettersPerCircle = 14, useLowercase = False\<rparr> (sconst 0)) = 12 \<and>
   length (letters2 (fst (generateRoundWith \<lparr>lettersPerCircle = 14, useLowercase = False\<rparr>
     (sconst 0)))) = 13"
  by (simp add: length_letters2 length_lettersForCircle1 length_lettersForCircle2)

text \<open>
  C4, amended. For upper-case-only settings with at least one letter per circle, both
  circles receive exactly \<open>lettersPerCircle - 1\<close> fillers, and both circles have
  \<open>lettersPerCircle\<close> letters, exactly when \<open>lettersPerCircle\<close> is at most 13: a shorter
  circle is reached only with more than 13 letters per circle.
\<close>

theorem partition_never_exhausts:
  assumes "\<not> useLowercase st" and "1 \<le> lettersPerCircle st"
  shows "((int (length (lettersForCircle1 st g)) = lettersPerCircle st - 1 \<and>
          int (length (lettersForCircle2 st g)) = lettersPerCircle st - 1)
           = (lettersPerCircle st \<le> 13)) \<and>
         ((int (length (letters1 (fst (generateRoundWith st g)))) = lettersPerCircle st \<and>
           int (length (letters2 (fst (generateRoundWith st g)))) = lettersPerCircle st)
           = (lettersPerCircle st \<le> 13))"
  unfolding length_letters1 length_letters2 length_lettersForCircle1 length_lettersForCircle2
  using assms(2) by (auto simp: min_def)

theorem partition_never_exhausts_witness:
  "int (length (lettersForCircle1 \<lparr>lettersPerCircle = 13, useLowercase = False\<rparr> (sconst 0))) = 12 \<and>
   int (length (lettersForCircle2 \<lparr>lettersPerCircle = 13, useLowercase = False\<rparr> (sconst 0))) = 12 \<and>
   int (length (letters1 (fst (generateRoundWith \<lparr>lettersPerCircle = 13, useLowercase = False\<rparr>
     (sconst 0))))) = 13 \<and>
   int (length (letters2 (fst (generateRoundWith \<lparr>lettersPerCircle = 13, useLowercase = False\<rparr>
     (sconst 0))))) = 13"
  using partition_never_exhausts[of "\<lparr>lettersPerCircle = 13, useLowercase = False\<rparr>" "sconst 0"]
  by simp




text \<open>
  C6. In a generated round no two letters of a circle share a concept, and no filler has
  the target concept; the letters of a circle other than the target are its fillers.
\<close>

theorem generateRound_concepts_unique:
  "distinct (map toUpperCase (letters1 (fst (generateRound d g)))) \<and>
   distinct (map toUpperCase (letters2 (fst (generateRound d g)))) \<and>
   matchingLetter (fst (generateRound d g)) \<notin>
     toUpperCase ` (set (lettersForCircle1 (DIFFICULTY_SETTINGS d) g) \<union>
                    set (lettersForCircle2 (DIFFICULTY_SETTINGS d) g)) \<and>
   mset (filter (\<lambda>l. toUpperCase l \<noteq> matchingLetter (fst (generateRound d g)))
          (letters1 (fst (generateRound d g)))) = mset (lettersForCircle1 (DIFFICULTY_SETTINGS d) g) \<and>
   mset (filter (\<lambda>l. toUpperCase l \<noteq> matchingLetter (fst (generateRound d g)))
          (letters2 (fst (generateRound d g)))) = mset (lettersForCircle2 (DIFFICULTY_SETTINGS d) g)"
  unfolding matchingLetter_generateRound unfolding generateRound_def
  using distinct_concepts1[of "DIFFICULTY_SETTINGS d" g] distinct_concepts2[of "DIFFICULTY_SETTINGS d" g]
    target_not_among_fillers[of g "DIFFICULTY_SETTINGS d"]
    nontarget1[of g "DIFFICULTY_SETTINGS d"] nontarget2[of g "DIFFICULTY_SETTINGS d"]
  by blast

text \<open>
  C7. The stars shown are \<open>max 1 (5 - wrongGuessesInRound)\<close>: five with no wrong guess,
  two with three, one with four or more, and never fewer than one; after a correct match
  in a session with a difficulty, the overlay shows that many stars for the wrong guesses
  of the round just won.
\<close>

theorem starsToShow_values:
  "starsToShow n = max 1 (5 - int n) \<and>
   starsToShow 0 = 5 \<and> starsToShow 3 = 2 \<and> (4 \<le> n \<longrightarrow> starsToShow n = 1) \<and>
   1 \<le> starsToShow n \<and>
   (difficulty w \<noteq> None \<and> fst (handleLetterClick l w) \<longrightarrow>
      renderedStars (snd (handleLetterClick l w)) = Some (max 1 (5 - int (wrongGuessesInRound w))))"
  by (auto simp: starsToShow_def renderedStars_def handleLetterClick_def handleLetterClickOf_def setTimeout_def
      split: option.splits if_splits)

theorem starsToShow_values_witness:
  "starsToShow 7 = 1 \<and>
   renderedStars (snd (handleLetterClick ''b'' (scenario\<lparr>wrongGuessesInRound := 3\<rparr>))) = Some 2"
  using starsToShow_values[of 7 "scenario\<lparr>wrongGuessesInRound := 3\<rparr>" "''b''"]
  by (simp add: scenario_def handleLetterClick_def handleLetterClickOf_def upper_scenario_letters)

text \<open>
  C8, as the claim states it, fails: nothing cancels a pending timer. In the session of
  \<open>stale_round_trace\<close> the player is on the hard tier, 8 letters per circle, with the
  hard round on the screen, when the timers of the abandoned easy round fire; the session
  ends on the hard tier with a round generated for the easy tier, 4 letters per circle,
  in place of the hard round.
\<close>

theorem stale_round_overwrites:
  "roundData (the (run (take 11 stale_round_trace) (initial (sconst 0)))) =
     Some (fst (generateRound Hard (snd (generateRound Easy (sconst 0))))) \<and>
   timers (the (run (take 11 stale_round_trace) (initial (sconst 0)))) =
     [(1700, CallStartNewRound (Some Easy))] \<and>
   run stale_round_trace (initial (sconst 0)) \<noteq> None \<and>
   difficulty (the (run stale_round_trace (initial (sconst 0)))) = Some Hard \<and>
   lettersPerCircle (DIFFICULTY_SETTINGS Hard) = 8 \<and>
   roundData (the (run stale_round_trace (initial (sconst 0)))) =
     Some (fst (generateRound Easy
       (snd (generateRound Hard (snd (generateRound Easy (sconst 0))))))) \<and>
   length (letters1 (the (roundData (the (run stale_round_trace (initial (sconst 0))))))) = 4 \<and>
   length (letters2 (the (roundData (the (run stale_round_trace (initial (sconst 0))))))) = 4"
  by (simp add: stale_round_trace_def initial_def step_def handleSelectDifficulty_def
      handleBackToMenu_def handleLetterClick_def handleLetterClickOf_def fireTimer_def startNewRound_def setTimeout_def
      split_beta A_in_easy_round matchingLetter_generateRound conceptOf_sconst_0
      length_letters1_generateRound length_letters2_generateRound)

text \<open>
  C8, amended. \<open>handleBackToMenu\<close> and \<open>handleSelectDifficulty\<close> cancel no pending
  timer: the first leaves the pending timers as they are and the second only adds its
  own. A timer that fires is applied to the session as it then is: the completion of a
  round-loading stores a round generated for the tier it was scheduled with and leaves
  the difficulty alone. A correct match schedules, 1200 ms ahead, the \<open>startNewRound\<close>
  of its render, which holds the difficulty of the session that was clicked in; when it
  fires with a tier it sets the feedback to \<open>Idle\<close>, clears the round and the wrong
  guesses, and schedules a round for that tier.
\<close>

theorem timers_never_cancelled:
  "timers (handleBackToMenu w) = timers w \<and>
   timers (handleSelectDifficulty level w) = timers w @ [(clock w + 100, SetRoundData level)] \<and>
   roundData (fireTimer (SetRoundData level') w) = Some (fst (generateRound level' (random w))) \<and>
   difficulty (fireTimer (SetRoundData level') w) = difficulty w \<and>
   (feedback w = Idle \<and> roundData w = Some rd \<and> toUpperCase l = toUpperCase (matchingLetter rd) \<longrightarrow>
      timers (snd (handleLetterClick l w)) =
        timers w @ [(clock w + 1200, CallStartNewRound (difficulty w))]) \<and>
   fireTimer (CallStartNewRound (Some level')) w =
     w\<lparr>feedback := Idle, wrongGuessesInRound := 0, roundData := None,
       timers := timers w @ [(clock w + 100, SetRoundData level')]\<rparr>"
  by (simp add: handleBackToMenu_def handleSelectDifficulty_def fireTimer_def startNewRound_def
      handleLetterClick_def handleLetterClickOf_def setTimeout_def split_beta)

theorem timers_never_cancelled_witness:
  "timers (snd (handleLetterClick ''b'' scenario)) = [(1300, CallStartNewRound (Some Easy))] \<and>
   timers (handleBackToMenu (snd (handleLetterClick ''b'' scenario))) =
     [(1300, CallStartNewRound (Some Easy))]"
  using timers_never_cancelled[of "snd (handleLetterClick ''b'' scenario)" Easy Easy
      "the (roundData scenario)" "''b''"]
    timers_never_cancelled[of scenario Easy Easy "the (roundData scenario)" "''b''"]
  by (simp add: scenario_def upper_scenario_letters)


text \<open>
  C10, as the claim states it, fails: \<open>startNewRound\<close> does not look at the session's
  difficulty. In the session of \<open>menu_timer_trace\<close> the player is back on the menu, the
  difficulty is null and the feedback still \<open>Correct\<close>, when the timer of the click
  fires; the \<open>startNewRound\<close> it calls sets the feedback to \<open>Idle\<close> and schedules a
  round generation.
\<close>

theorem startNewRound_runs_on_menu:
  "difficulty (the (run (take 8 menu_timer_trace) (initial (sconst 0)))) = None \<and>
   feedback (the (run (take 8 menu_timer_trace) (initial (sconst 0)))) = Correct \<and>
   timers (the (run (take 8 menu_timer_trace) (initial (sconst 0)))) =
     [(1700, CallStartNewRound (Some Easy))] \<and>
   run menu_timer_trace (initial (sconst 0)) \<noteq> None \<and>
   difficulty (the (run menu_timer_trace (initial (sconst 0)))) = None \<and>
   feedback (the (run menu_timer_trace (initial (sconst 0)))) = Idle \<and>
   timers (the (run menu_timer_trace (initial (sconst 0)))) = [(1800, SetRoundData Easy)]"
  by (simp add: menu_timer_trace_def initial_def step_def handleSelectDifficulty_def
      handleBackToMenu_def handleLetterClick_def handleLetterClickOf_def fireTimer_def
      startNewRound_def setTimeout_def split_beta A_in_easy_round matchingLetter_generateRound
      conceptOf_sconst_0)

text \<open>
  C10, amended. \<open>startNewRound\<close> tests the difficulty of the render that created it.
  When that is null it gives back the session as it was: no field changes and no timer
  is added; so does the \<open>startNewRound\<close> of a render that shows a session without a
  difficulty. A \<open>startNewRound\<close> created while a tier was chosen sets the feedback to
  \<open>Idle\<close>, resets the wrong guesses, clears the round and schedules a round generation
  for that tier, whatever the session's difficulty is when it runs. In no session that
  starts on the menu does a pending timer hold a \<open>startNewRound\<close> created without a
  difficulty.
\<close>

theorem startNewRound_without_difficulty:
  "startNewRound None w = w \<and>
   (difficulty w = None \<longrightarrow> startNewRound (difficulty w) w = w) \<and>
   startNewRound (Some level) w =
     w\<lparr>feedback := Idle, wrongGuessesInRound := 0, roundData := None,
       timers := timers w @ [(clock w + 100, SetRoundData level)]\<rparr> \<and>
   startNewRound (Some level) w \<noteq> w \<and>
   (run es (initial g) = Some w' \<longrightarrow> CallStartNewRound None \<notin> snd ` set (timers w'))"
proof -
  have 1: "startNewRound None w = w" by (simp add: startNewRound_def)
  have 2: "startNewRound (Some level) w =
     w\<lparr>feedback := Idle, wrongGuessesInRound := 0, roundData := None,
       timers := timers w @ [(clock w + 100, SetRoundData level)]\<rparr>"
    by (simp add: startNewRound_def setTimeout_def)
  have "timers (startNewRound (Some level) w) \<noteq> timers w" unfolding 2 by simp
  then have 3: "startNewRound (Some level) w \<noteq> w" by auto
  have 4: "run es (initial g) = Some w' \<longrightarrow> CallStartNewRound None \<notin> snd ` set (timers w')"
  proof
    assume r: "run es (initial g) = Some w'"
    have "no_null_closure (initial g)" by (simp add: no_null_closure_def initial_def)
    from run_no_null_closure[OF r this] show "CallStartNewRound None \<notin> snd ` set (timers w')"
      by (simp add: no_null_closure_def)
  qed
  from 1 2 3 4 show ?thesis by simp
qed

theorem startNewRound_without_difficulty_witness:
  "startNewRound None (initial (sconst 0)) = initial (sconst 0) \<and>
   run (take 5 menu_timer_trace) (initial (sconst 0)) \<noteq> None \<and>
   timers (the (run (take 5 menu_timer_trace) (initial (sconst 0)))) =
     [(1700, CallStartNewRound (Some Easy))] \<and>
   CallStartNewRound None \<notin>
     snd ` set (timers (the (run (take 5 menu_timer_trace) (initial (sconst 0)))))"
proof -
  define w5 where "w5 =
    \<lparr>difficulty = Some Easy, roundData = Some (fst (generateRound Easy (sconst 0))),
     score = 1, feedback = Correct, wrongGuess = False, wrongGuessesInRound = 0, clock = 500,
     timers = [(1700, CallStartNewRound (Some Easy))],
     random = snd (generateRound Easy (sconst 0))\<rparr>"
  have r: "run (take 5 menu_timer_trace) (initial (sconst 0)) = Some w5"
    unfolding w5_def
    by (simp add: menu_timer_trace_def initial_def step_def handleSelectDifficulty_def
        handleLetterClick_def handleLetterClickOf_def fireTimer_def setTimeout_def split_beta
        A_in_easy_round matchingLetter_generateRound conceptOf_sconst_0)
  have t: "timers w5 = [(1700, CallStartNewRound (Some Easy))]"
    by (simp add: w5_def)
  from startNewRound_without_difficulty[of "initial (sconst 0)" Easy
      "take 5 menu_timer_trace" "sconst 0" w5] r
  have "startNewRound None (initial (sconst 0)) = initial (sconst 0)"
    and "CallStartNewRound None \<notin> snd ` set (timers w5)"
    by simp_all
  with t show ?thesis by (simp add: r)
qed

end
